theory Spec2Isabelle
  imports Complex_Main "HOL-Library.Multiset" "HOL-Library.Product_Lexorder"
begin

section \<open>Errors and values\<close>

text \<open>
  The exceptions that the functions of \<^verbatim>\<open>app.py\<close> can raise on well-typed arguments.
  A raise is the value \<open>Inl e\<close>; nothing in the file catches an exception except the
  two \<^verbatim>\<open>except ValueError\<close> clauses of \<^verbatim>\<open>parse_date\<close>.
\<close>

datatype error = ValueError | TypeError | ZeroDivisionError

text \<open>
  A \<^verbatim>\<open>datetime.datetime\<close> object. \<open>tzinfo\<close> is \<open>None\<close> for a naive value and
  \<open>Some off\<close> for an aware one, \<open>off\<close> being the fixed UTC offset in microseconds
  (the only \<^verbatim>\<open>tzinfo\<close> objects that arise here are \<^verbatim>\<open>datetime.timezone\<close> instances).
\<close>

record datetime =
  year :: int
  month :: int
  day :: int
  hour :: int
  minute :: int
  second :: int
  microsecond :: int
  tzinfo :: "int option"

text \<open>A \<^verbatim>\<open>timedelta\<close> is its total number of microseconds.\<close>

type_synonym timedelta = int

text \<open>
  Python's \<^verbatim>\<open>float\<close> results are represented by the exact rational value of the
  expression; rounding to binary64 and the range of the format are outside the model.
\<close>

type_synonym pyfloat = rat

section \<open>Calendar arithmetic of the datetime module\<close>

definition is_leap :: "int \<Rightarrow> bool" where
  "is_leap y = (y mod 4 = 0 \<and> (y mod 100 \<noteq> 0 \<or> y mod 400 = 0))"

definition days_before_year :: "int \<Rightarrow> int" where
  "days_before_year y0 =
     (let y = y0 - 1 in y * 365 + y div 4 - y div 100 + y div 400)"

definition days_in_month :: "int \<Rightarrow> int \<Rightarrow> int" where
  "days_in_month y m =
     (if m = 2 \<and> is_leap y then 29
      else [31, 28, 31, 30, 31, 30, 31, 31, 30, 31, 30, 31] ! nat (m - 1))"

definition days_before_month :: "int \<Rightarrow> int \<Rightarrow> int" where
  "days_before_month y m =
     [0, 31, 59, 90, 120, 151, 181, 212, 243, 273, 304, 334] ! nat (m - 1)
       + (if m > 2 \<and> is_leap y then 1 else 0)"

definition ymd2ord :: "int \<Rightarrow> int \<Rightarrow> int \<Rightarrow> int" where
  "ymd2ord y m d = days_before_year y + days_before_month y m + d"

definition toordinal :: "datetime \<Rightarrow> int" where
  "toordinal dt = ymd2ord (year dt) (month dt) (day dt)"

text \<open>
  The constructor \<^verbatim>\<open>datetime(year, month, day, hour, minute, second, microsecond, tzinfo)\<close>
  checks every field and raises \<^verbatim>\<open>ValueError\<close> outside the ranges.
\<close>

definition check_date_fields :: "int \<Rightarrow> int \<Rightarrow> int \<Rightarrow> bool" where
  "check_date_fields y m d =
     (1 \<le> y \<and> y \<le> 9999 \<and> 1 \<le> m \<and> m \<le> 12 \<and> 1 \<le> d \<and> d \<le> days_in_month y m)"

definition check_time_fields :: "int \<Rightarrow> int \<Rightarrow> int \<Rightarrow> int \<Rightarrow> bool" where
  "check_time_fields h mi s us =
     (0 \<le> h \<and> h \<le> 23 \<and> 0 \<le> mi \<and> mi \<le> 59 \<and> 0 \<le> s \<and> s \<le> 59 \<and> 0 \<le> us \<and> us \<le> 999999)"

definition new_datetime ::
  "int \<Rightarrow> int \<Rightarrow> int \<Rightarrow> int \<Rightarrow> int \<Rightarrow> int \<Rightarrow> int \<Rightarrow> int option \<Rightarrow> error + datetime" where
  "new_datetime y m d h mi s us tz =
     (if check_date_fields y m d \<and> check_time_fields h mi s us
      then Inr \<lparr>year = y, month = m, day = d, hour = h, minute = mi, second = s,
                microsecond = us, tzinfo = tz\<rparr>
      else Inl ValueError)"

text \<open>
  \<^verbatim>\<open>datetime.__sub__\<close>: the difference of the wall-clock fields; two values of the
  same awareness and offset subtract directly, a naive and an aware one raise
  \<^verbatim>\<open>TypeError\<close>, two aware ones of different offsets are compared in UTC.
\<close>

definition base_delta :: "datetime \<Rightarrow> datetime \<Rightarrow> timedelta" where
  "base_delta a b =
     ((toordinal a - toordinal b) * 86400
        + ((second a + minute a * 60 + hour a * 3600)
           - (second b + minute b * 60 + hour b * 3600))) * 1000000
       + (microsecond a - microsecond b)"

definition datetime_sub :: "datetime \<Rightarrow> datetime \<Rightarrow> error + timedelta" where
  "datetime_sub a b =
     (if tzinfo a = tzinfo b then Inr (base_delta a b)
      else (case (tzinfo a, tzinfo b) of
              (Some myoff, Some otoff) \<Rightarrow> Inr (base_delta a b + otoff - myoff)
            | _ \<Rightarrow> Inl TypeError))"

text \<open>\<^verbatim>\<open>timedelta.days\<close>: the normalised day count, a floor division.\<close>

definition td_days :: "timedelta \<Rightarrow> int" where
  "td_days delta = delta div 86400000000"

text \<open>
  \<^verbatim>\<open>datetime._cmp\<close>: values of equal offset compare by their field tuples; a naive and an
  aware value raise \<^verbatim>\<open>TypeError\<close> under an ordering and are unequal under \<^verbatim>\<open>==\<close>;
  aware values of different offsets compare by the sign of their difference.
\<close>

definition field_tuple :: "datetime \<Rightarrow> int \<times> int \<times> int \<times> int \<times> int \<times> int \<times> int" where
  "field_tuple dt = (year dt, month dt, day dt, hour dt, minute dt, second dt, microsecond dt)"

definition cmp :: "'a::linorder \<Rightarrow> 'a \<Rightarrow> int" where
  "cmp x y = (if x = y then 0 else if x < y then - 1 else 1)"

definition datetime_cmp :: "datetime \<Rightarrow> datetime \<Rightarrow> error + int" where
  "datetime_cmp a b =
     (if tzinfo a = tzinfo b then Inr (cmp (field_tuple a) (field_tuple b))
      else (case (tzinfo a, tzinfo b) of
              (Some myoff, Some otoff) \<Rightarrow> Inr (cmp (base_delta a b + otoff - myoff) 0)
            | _ \<Rightarrow> Inl TypeError))"

definition datetime_lt :: "datetime \<Rightarrow> datetime \<Rightarrow> error + bool" where
  "datetime_lt a b = map_sum id (\<lambda>c. c < 0) (datetime_cmp a b)"

definition datetime_gt :: "datetime \<Rightarrow> datetime \<Rightarrow> error + bool" where
  "datetime_gt a b = map_sum id (\<lambda>c. c > 0) (datetime_cmp a b)"

definition datetime_le :: "datetime \<Rightarrow> datetime \<Rightarrow> error + bool" where
  "datetime_le a b = map_sum id (\<lambda>c. c \<le> 0) (datetime_cmp a b)"

definition datetime_eq :: "datetime \<Rightarrow> datetime \<Rightarrow> bool" where
  "datetime_eq a b = (case datetime_cmp a b of Inl e \<Rightarrow> False | Inr c \<Rightarrow> c = 0)"

section \<open>Text helpers\<close>

definition in_range :: "char \<Rightarrow> char \<Rightarrow> char \<Rightarrow> bool" where
  "in_range lo hi c = ((of_char lo :: nat) \<le> of_char c \<and> (of_char c :: nat) \<le> of_char hi)"

definition is_digit :: "char \<Rightarrow> bool" where
  "is_digit c = in_range (CHR ''0'') (CHR ''9'') c"

definition digit_val :: "char \<Rightarrow> int" where
  "digit_val c = int (of_char c) - 48"

text \<open>The value of a run of decimal digits (\<^verbatim>\<open>int(s)\<close> on text already known to be digits).\<close>

definition int_of_digits :: "string \<Rightarrow> int" where
  "int_of_digits ds = foldl (\<lambda>acc c. acc * 10 + digit_val c) 0 ds"

text \<open>Case folding of the ASCII letters, for matching under \<^verbatim>\<open>re.IGNORECASE\<close>.\<close>

definition lower :: "char \<Rightarrow> char" where
  "lower c = (if in_range (CHR ''A'') (CHR ''Z'') c then char_of (of_char c + (32::nat)) else c)"

text \<open>\<^verbatim>\<open>str.replace(old, new)\<close> for a one-character \<open>old\<close>: every occurrence is replaced.\<close>

definition replace :: "char \<Rightarrow> string \<Rightarrow> string \<Rightarrow> string" where
  "replace old new s = concat (map (\<lambda>c. if c = old then new else [c]) s)"

section \<open>datetime.strptime\<close>

text \<open>
  \<^verbatim>\<open>datetime.strptime(data, format)\<close> turns the format into a regular expression, one group
  per directive, compiled with \<^verbatim>\<open>re.IGNORECASE\<close>, matches it at the start of the data
  and raises \<^verbatim>\<open>ValueError\<close> when it does not match or when text remains. The groups of
  the directives used by \<^verbatim>\<open>parse_date\<close> are
  \<^verbatim>\<open>%Y: \d\d\d\d\<close>, \<^verbatim>\<open>%m: 1[0-2]|0[1-9]|[1-9]\<close>,
  \<^verbatim>\<open>%d: 3[0-1]|[1-2]\d|0[1-9]|[1-9]| [1-9]\<close>, \<^verbatim>\<open>%H: 2[0-3]|[0-1]\d|\d\<close>,
  \<^verbatim>\<open>%M: [0-5]\d|\d\<close>, \<^verbatim>\<open>%S: 6[0-1]|[0-5]\d|\d\<close>, \<^verbatim>\<open>%f: [0-9]{1,6}\<close>.
  In both formats of \<^verbatim>\<open>parse_date\<close> every directive is followed by a literal that is
  not a digit, so the first alternative that matches is the one the whole match uses.
  An alternative returns the matched digits and the rest of the text.
\<close>

definition alt2 :: "(char \<Rightarrow> bool) \<Rightarrow> (char \<Rightarrow> bool) \<Rightarrow> string \<Rightarrow> (string \<times> string) option" where
  "alt2 p q s = (case s of a # b # r \<Rightarrow> if p a \<and> q b then Some ([a, b], r) else None | _ \<Rightarrow> None)"

definition alt1 :: "(char \<Rightarrow> bool) \<Rightarrow> string \<Rightarrow> (string \<times> string) option" where
  "alt1 p s = (case s of a # r \<Rightarrow> if p a then Some ([a], r) else None | _ \<Rightarrow> None)"

definition orelse :: "'a option \<Rightarrow> 'a option \<Rightarrow> 'a option" where
  "orelse x y = (case x of None \<Rightarrow> y | Some v \<Rightarrow> Some v)"

definition re_Y :: "string \<Rightarrow> (string \<times> string) option" where
  "re_Y s = (if 4 \<le> length s \<and> list_all is_digit (take 4 s)
             then Some (take 4 s, drop 4 s) else None)"

definition re_m :: "string \<Rightarrow> (string \<times> string) option" where
  "re_m s = orelse (alt2 ((=) (CHR ''1'')) (in_range (CHR ''0'') (CHR ''2'')) s)
           (orelse (alt2 ((=) (CHR ''0'')) (in_range (CHR ''1'') (CHR ''9'')) s)
                   (alt1 (in_range (CHR ''1'') (CHR ''9'')) s))"

definition re_d :: "string \<Rightarrow> (string \<times> string) option" where
  "re_d s = orelse (alt2 ((=) (CHR ''3'')) (in_range (CHR ''0'') (CHR ''1'')) s)
           (orelse (alt2 (in_range (CHR ''1'') (CHR ''2'')) is_digit s)
           (orelse (alt2 ((=) (CHR ''0'')) (in_range (CHR ''1'') (CHR ''9'')) s)
           (orelse (alt1 (in_range (CHR ''1'') (CHR ''9'')) s)
                   (map_option (\<lambda>(t, r). (drop 1 t, r))
                      (alt2 ((=) (CHR '' '')) (in_range (CHR ''1'') (CHR ''9'')) s)))))"

definition re_H :: "string \<Rightarrow> (string \<times> string) option" where
  "re_H s = orelse (alt2 ((=) (CHR ''2'')) (in_range (CHR ''0'') (CHR ''3'')) s)
           (orelse (alt2 (in_range (CHR ''0'') (CHR ''1'')) is_digit s)
                   (alt1 is_digit s))"

definition re_M :: "string \<Rightarrow> (string \<times> string) option" where
  "re_M s = orelse (alt2 (in_range (CHR ''0'') (CHR ''5'')) is_digit s) (alt1 is_digit s)"

definition re_S :: "string \<Rightarrow> (string \<times> string) option" where
  "re_S s = orelse (alt2 ((=) (CHR ''6'')) (in_range (CHR ''0'') (CHR ''1'')) s)
           (orelse (alt2 (in_range (CHR ''0'') (CHR ''5'')) is_digit s)
                   (alt1 is_digit s))"

definition re_f :: "string \<Rightarrow> (string \<times> string) option" where
  "re_f s = (let ds = takeWhile is_digit (take 6 s)
             in if ds = [] then None else Some (ds, drop (length ds) s))"

text \<open>
  The values found so far: year, month, day, hour, minute, second, fraction, with the
  defaults of \<^verbatim>\<open>_strptime\<close>. The fraction text is padded with zeros to six digits.
\<close>

record found =
  f_year :: int
  f_month :: int
  f_day :: int
  f_hour :: int
  f_minute :: int
  f_second :: int
  f_fraction :: int

definition found0 :: found where
  "found0 = \<lparr>f_year = 1900, f_month = 1, f_day = 1, f_hour = 0, f_minute = 0,
             f_second = 0, f_fraction = 0\<rparr>"

definition directive :: "char \<Rightarrow> string \<Rightarrow> found \<Rightarrow> (found \<times> string) option" where
  "directive d s acc =
     (if d = CHR ''Y'' then map_option (\<lambda>(t, r). (acc\<lparr>f_year := int_of_digits t\<rparr>, r)) (re_Y s)
      else if d = CHR ''m'' then map_option (\<lambda>(t, r). (acc\<lparr>f_month := int_of_digits t\<rparr>, r)) (re_m s)
      else if d = CHR ''d'' then map_option (\<lambda>(t, r). (acc\<lparr>f_day := int_of_digits t\<rparr>, r)) (re_d s)
      else if d = CHR ''H'' then map_option (\<lambda>(t, r). (acc\<lparr>f_hour := int_of_digits t\<rparr>, r)) (re_H s)
      else if d = CHR ''M'' then map_option (\<lambda>(t, r). (acc\<lparr>f_minute := int_of_digits t\<rparr>, r)) (re_M s)
      else if d = CHR ''S'' then map_option (\<lambda>(t, r). (acc\<lparr>f_second := int_of_digits t\<rparr>, r)) (re_S s)
      else if d = CHR ''f'' then
        map_option (\<lambda>(t, r). (acc\<lparr>f_fraction := int_of_digits (t @ replicate (6 - length t) (CHR ''0''))\<rparr>, r))
          (re_f s)
      else None)"

text \<open>
  Matching the format against the data, left to right; \<open>None\<close> is a failed match.
  Directives other than the seven above do not occur in the source and fail here.
\<close>

fun strptime_match :: "string \<Rightarrow> string \<Rightarrow> found \<Rightarrow> found option" where
  "strptime_match [] s acc = (if s = [] then Some acc else None)"
| "strptime_match [c] s acc =
     (case s of [] \<Rightarrow> None
      | x # r \<Rightarrow> if c \<noteq> CHR ''%'' \<and> lower x = lower c then strptime_match [] r acc else None)"
| "strptime_match (c # d # fmt) s acc =
     (if c = CHR ''%'' then
        (case directive d s acc of None \<Rightarrow> None
         | Some (acc', r) \<Rightarrow> strptime_match fmt r acc')
      else (case s of [] \<Rightarrow> None
            | x # r \<Rightarrow> if lower x = lower c then strptime_match (d # fmt) r acc else None))"

text \<open>
  The date is checked when \<^verbatim>\<open>_strptime\<close> computes the day of the year, the time when
  the datetime is constructed; both raise \<^verbatim>\<open>ValueError\<close>. The result is naive.
\<close>

definition strptime :: "string \<Rightarrow> string \<Rightarrow> error + datetime" where
  "strptime date_string format =
     (case strptime_match format date_string found0 of
        None \<Rightarrow> Inl ValueError
      | Some f \<Rightarrow> new_datetime (f_year f) (f_month f) (f_day f) (f_hour f) (f_minute f)
                    (f_second f) (f_fraction f) None)"

section \<open>datetime.fromisoformat\<close>

text \<open>
  \<^verbatim>\<open>datetime.fromisoformat\<close> on the grammar its documentation gives for Python 3.7 to 3.10,
  \<^verbatim>\<open>YYYY-MM-DD[*HH[:MM[:SS[.fff[fff]]]][+HH:MM[:SS[.ffffff]]]]\<close>, where \<^verbatim>\<open>*\<close> is any one
  character; later versions accept further ISO 8601 forms and return the same values on
  this grammar. A string outside the grammar raises \<^verbatim>\<open>ValueError\<close>. A string with an
  offset gives an aware datetime, one without gives a naive one.
\<close>

definition two_digits :: "string \<Rightarrow> (int \<times> string) option" where
  "two_digits s =
     (case s of a # b # r \<Rightarrow> if is_digit a \<and> is_digit b then Some (int_of_digits [a, b], r) else None
      | _ \<Rightarrow> None)"

definition parse_fraction :: "string \<Rightarrow> int option" where
  "parse_fraction s =
     (case s of [] \<Rightarrow> Some 0
      | c # ds \<Rightarrow>
          if c \<noteq> CHR ''.'' \<or> \<not> list_all is_digit ds then None
          else if length ds = 3 then Some (int_of_digits ds * 1000)
          else if length ds = 6 then Some (int_of_digits ds)
          else None)"

definition parse_hh_mm_ss_ff :: "string \<Rightarrow> (int \<times> int \<times> int \<times> int) option" where
  "parse_hh_mm_ss_ff tstr =
     (case two_digits tstr of None \<Rightarrow> None
      | Some (hh, r1) \<Rightarrow>
         (case r1 of [] \<Rightarrow> Some (hh, 0, 0, 0)
          | c1 # r1' \<Rightarrow>
             if c1 \<noteq> CHR '':'' then None
             else (case two_digits r1' of None \<Rightarrow> None
                   | Some (mm, r2) \<Rightarrow>
                      (case r2 of [] \<Rightarrow> Some (hh, mm, 0, 0)
                       | c2 # r2' \<Rightarrow>
                          if c2 \<noteq> CHR '':'' then None
                          else (case two_digits r2' of None \<Rightarrow> None
                                | Some (ss, r3) \<Rightarrow>
                                    map_option (\<lambda>ff. (hh, mm, ss, ff)) (parse_fraction r3))))))"

definition parse_isoformat_date :: "string \<Rightarrow> (int \<times> int \<times> int) option" where
  "parse_isoformat_date dtstr =
     (if length dtstr = 10 \<and> list_all is_digit (take 4 dtstr) \<and> dtstr ! 4 = CHR ''-''
         \<and> list_all is_digit (take 2 (drop 5 dtstr)) \<and> dtstr ! 7 = CHR ''-''
         \<and> list_all is_digit (drop 8 dtstr)
      then Some (int_of_digits (take 4 dtstr), int_of_digits (take 2 (drop 5 dtstr)),
                 int_of_digits (drop 8 dtstr))
      else None)"

definition is_sign :: "char \<Rightarrow> bool" where
  "is_sign c = (c = CHR ''+'' \<or> c = CHR ''-'')"

text \<open>
  The offset text has length 5, 8 or 15; an all-zero offset is \<^verbatim>\<open>timezone.utc\<close>, another
  one is \<^verbatim>\<open>timezone(sign * td)\<close>, which raises \<^verbatim>\<open>ValueError\<close> unless the offset is
  strictly within 24 hours.
\<close>

definition parse_tz :: "char \<Rightarrow> string \<Rightarrow> int option" where
  "parse_tz sign tzstr =
     (if length tzstr \<notin> {5, 8, 15} then None
      else (case parse_hh_mm_ss_ff tzstr of None \<Rightarrow> None
            | Some (hh, mm, ss, ff) \<Rightarrow>
                (let td = ((hh * 3600 + mm * 60 + ss) * 1000000 + ff)
                 in if td < 86400000000
                    then Some (if sign = CHR ''-'' then - td else td) else None)))"

definition parse_isoformat_time :: "string \<Rightarrow> ((int \<times> int \<times> int \<times> int) \<times> int option) option" where
  "parse_isoformat_time tstr =
     (let timestr = takeWhile (\<lambda>c. \<not> is_sign c) tstr;
          rest = dropWhile (\<lambda>c. \<not> is_sign c) tstr
      in (case parse_hh_mm_ss_ff timestr of None \<Rightarrow> None
          | Some comps \<Rightarrow>
             (case rest of [] \<Rightarrow> Some (comps, None)
              | sign # tzstr \<Rightarrow>
                 (case parse_tz sign tzstr of None \<Rightarrow> None
                  | Some off \<Rightarrow> Some (comps, Some off)))))"

definition fromisoformat :: "string \<Rightarrow> error + datetime" where
  "fromisoformat date_string =
     (case parse_isoformat_date (take 10 date_string) of
        None \<Rightarrow> Inl ValueError
      | Some (y, m, d) \<Rightarrow>
          if length date_string = 10 then new_datetime y m d 0 0 0 0 None
          else (case parse_isoformat_time (drop 11 date_string) of
                  None \<Rightarrow> Inl ValueError
                | Some ((hh, mm, ss, ff), tz) \<Rightarrow> new_datetime y m d hh mm ss ff tz))"

section \<open>parse\_date\<close>

text \<open>
  Lines 17 to 28. Each \<^verbatim>\<open>except ValueError\<close> catches that exception only; the last
  attempt is not guarded, so its exception leaves the function.
\<close>

definition parse_date :: "string \<Rightarrow> error + datetime" where
  "parse_date date_str =
     (case strptime date_str ''%Y-%m-%dT%H:%M:%S.%fZ'' of
        Inr dt \<Rightarrow> Inr dt
      | Inl TypeError \<Rightarrow> Inl TypeError
      | Inl ZeroDivisionError \<Rightarrow> Inl ZeroDivisionError
      | Inl ValueError \<Rightarrow>
         (case strptime date_str ''%Y-%m-%dT%H:%M:%SZ'' of
            Inr dt \<Rightarrow> Inr dt
          | Inl TypeError \<Rightarrow> Inl TypeError
          | Inl ZeroDivisionError \<Rightarrow> Inl ZeroDivisionError
          | Inl ValueError \<Rightarrow> fromisoformat (replace (CHR ''Z'') ''+00:00'' date_str)))"

section \<open>Channel search\<close>

text \<open>
  The dictionary that \<^verbatim>\<open>get_channel_stats\<close> returns (lines 71 to 78); every key is
  always present, so it is a record. The counts are Python integers.
\<close>

record channel =
  channel_id :: string
  title :: string
  subscriber_count :: int
  view_count :: int
  video_count :: int
  published_at :: string

text \<open>
  One item of the response of \<^verbatim>\<open>youtube.channels().list\<close>: the snippet and the statistics,
  the counts being the integers that \<^verbatim>\<open>int\<close> reads from the response. The service is a
  parameter \<open>api\<close> giving the items for a channel id.
\<close>

record item =
  snippet_title :: string
  snippet_publishedAt :: string
  subscriberCount :: int
  viewCount :: int
  videoCount :: int

definition get_channel_stats :: "(string \<Rightarrow> item list) \<Rightarrow> string \<Rightarrow> channel option" where
  "get_channel_stats api cid =
     (case api cid of
        [] \<Rightarrow> None
      | it # _ \<Rightarrow> Some \<lparr>channel_id = cid, title = snippet_title it,
                         subscriber_count = subscriberCount it, view_count = viewCount it,
                         video_count = videoCount it,
                         published_at = snippet_publishedAt it\<rparr>)"

text \<open>
  Lines 49 and 51: \<^verbatim>\<open>min_date and published_at < min_date\<close>. A bound that is \<^verbatim>\<open>None\<close> is
  false and the comparison is not evaluated; a datetime is always true.
\<close>

definition before_min :: "datetime option \<Rightarrow> datetime \<Rightarrow> error + bool" where
  "before_min min_date p = (case min_date of None \<Rightarrow> Inr False | Some m \<Rightarrow> datetime_lt p m)"

definition after_max :: "datetime option \<Rightarrow> datetime \<Rightarrow> error + bool" where
  "after_max max_date p = (case max_date of None \<Rightarrow> Inr False | Some m \<Rightarrow> datetime_gt p m)"

text \<open>
  The loop of lines 43 to 53 over the results of \<^verbatim>\<open>get_channel_stats\<close> for the items of
  the search response, in order, with the list \<^verbatim>\<open>channels\<close> built so far. An item
  without statistics is skipped; an exception of \<^verbatim>\<open>parse_date\<close> or of a comparison
  ends the loop.
\<close>

fun search_loop ::
  "datetime option \<Rightarrow> datetime option \<Rightarrow> channel option list \<Rightarrow> channel list
     \<Rightarrow> error + channel list" where
  "search_loop min_date max_date [] channels = Inr channels"
| "search_loop min_date max_date (None # infos) channels =
     search_loop min_date max_date infos channels"
| "search_loop min_date max_date (Some channel_info # infos) channels =
     (case parse_date (published_at channel_info) of
        Inl e \<Rightarrow> Inl e
      | Inr p \<Rightarrow>
         (case before_min min_date p of
            Inl e \<Rightarrow> Inl e
          | Inr True \<Rightarrow> search_loop min_date max_date infos channels
          | Inr False \<Rightarrow>
             (case after_max max_date p of
                Inl e \<Rightarrow> Inl e
              | Inr True \<Rightarrow> search_loop min_date max_date infos channels
              | Inr False \<Rightarrow>
                  search_loop min_date max_date infos (channels @ [channel_info]))))"

text \<open>
  \<^verbatim>\<open>search_channels\<close>: \<open>response\<close> is the list of channel ids in the items of the search
  response (the query and the result cap only reach the service).
\<close>

definition search_channels ::
  "(string \<Rightarrow> item list) \<Rightarrow> string list \<Rightarrow> datetime option \<Rightarrow> datetime option
     \<Rightarrow> error + channel list" where
  "search_channels api response min_date max_date =
     search_loop min_date max_date (map (get_channel_stats api) response) []"

section \<open>Growth analysis\<close>

text \<open>The dictionary appended to \<^verbatim>\<open>results\<close> (lines 96 to 106).\<close>

record growth =
  channel_name :: string
  g_channel_id :: string
  current_subs :: int
  current_views :: int
  g_published_at :: string
  days_since_creation :: int
  daily_subs :: pyfloat
  daily_views :: pyfloat
  growth_rate :: pyfloat

text \<open>The operator \<^verbatim>\<open>/\<close> on two integers: \<^verbatim>\<open>ZeroDivisionError\<close> on a zero divisor.\<close>

definition truediv :: "int \<Rightarrow> int \<Rightarrow> error + pyfloat" where
  "truediv a b = (if b = 0 then Inl ZeroDivisionError else Inr (of_int a / of_int b))"

text \<open>
  Lines 86 and 87: the whole days between the clock reading \<open>now\<close> (a naive local time,
  what \<^verbatim>\<open>datetime.now()\<close> returns) and the parsed \<^verbatim>\<open>published_at\<close>.
\<close>

definition days_since :: "datetime \<Rightarrow> channel \<Rightarrow> error + int" where
  "days_since now channel =
     (case parse_date (published_at channel) of
        Inl e \<Rightarrow> Inl e
      | Inr p \<Rightarrow> map_sum id td_days (datetime_sub now p))"

text \<open>The body of the loop, lines 86 to 106: the dictionary for one channel.\<close>

definition growth_record :: "datetime \<Rightarrow> channel \<Rightarrow> error + growth" where
  "growth_record now channel =
     (case days_since now channel of
        Inl e \<Rightarrow> Inl e
      | Inr d \<Rightarrow>
         (case truediv (subscriber_count channel) d of
            Inl e \<Rightarrow> Inl e
          | Inr subs_per_day \<Rightarrow>
             (case truediv (view_count channel) d of
                Inl e \<Rightarrow> Inl e
              | Inr views_per_day \<Rightarrow>
                 (case truediv (subscriber_count channel) d of
                    Inl e \<Rightarrow> Inl e
                  | Inr q \<Rightarrow>
                      Inr \<lparr>channel_name = title channel,
                           g_channel_id = channel_id channel,
                           current_subs = subscriber_count channel,
                           current_views = view_count channel,
                           g_published_at = published_at channel,
                           days_since_creation = d,
                           daily_subs = subs_per_day,
                           daily_views = views_per_day,
                           growth_rate = q * 100\<rparr>))))"

text \<open>
  The variables of \<^verbatim>\<open>analyze_channels_growth\<close>: the argument \<^verbatim>\<open>channels\<close>, a list object
  shared with the caller, and the local list \<^verbatim>\<open>results\<close>.
\<close>

record frame =
  channels :: "channel list"
  results :: "growth list"

text \<open>
  The \<^verbatim>\<open>for\<close> loop: the list iterator reads \<^verbatim>\<open>channels[i]\<close> for \<open>i = 0, 1, ...\<close> until
  the index reaches the length. The source reads the clock in every iteration; the
  model gives all of them the one reading \<open>now\<close> (a frozen clock).
\<close>

function analyze_loop :: "datetime \<Rightarrow> nat \<Rightarrow> frame \<Rightarrow> error + frame" where
  "analyze_loop now i st =
     (if i < length (channels st) then
        (case growth_record now (channels st ! i) of
           Inl e \<Rightarrow> Inl e
         | Inr r \<Rightarrow> analyze_loop now (Suc i) (st\<lparr>results := results st @ [r]\<rparr>))
      else Inr st)"
  by pat_completeness auto
termination
  by (relation "measure (\<lambda>(now, i, st). length (channels st) - i)") auto

declare analyze_loop.simps [simp del]

text \<open>
  \<^verbatim>\<open>list.sort(key=..., reverse=True)\<close>: a stable sort in descending order of the key.
  CPython reverses the list, sorts it stably in ascending order and reverses it again,
  so that elements of equal key keep their order.
\<close>

definition sort_reverse :: "('a \<Rightarrow> 'k::linorder) \<Rightarrow> 'a list \<Rightarrow> 'a list" where
  "sort_reverse key xs = rev (sort_key key (rev xs))"

text \<open>The frame when the function returns, and the value it returns (\<^verbatim>\<open>results\<close>).\<close>

definition analyze_frame :: "datetime \<Rightarrow> channel list \<Rightarrow> int \<Rightarrow> error + frame" where
  "analyze_frame now chans days =
     (case analyze_loop now 0 \<lparr>channels = chans, results = []\<rparr> of
        Inl e \<Rightarrow> Inl e
      | Inr st \<Rightarrow> Inr (st\<lparr>results := sort_reverse growth_rate (results st)\<rparr>))"

definition analyze_channels_growth :: "datetime \<Rightarrow> channel list \<Rightarrow> int \<Rightarrow> error + growth list" where
  "analyze_channels_growth now chans days = map_sum id results (analyze_frame now chans days)"

section \<open>The date range of the specification\<close>

text \<open>
  The specification's reading of the filter, to compare with the loop: a channel is
  retained when its parsed \<^verbatim>\<open>published_at\<close> lies in \<open>[min_date, max_date]\<close>, both ends
  included, a bound that is not supplied imposing nothing.
\<close>

definition spec_within_bounds :: "datetime option \<Rightarrow> datetime option \<Rightarrow> datetime \<Rightarrow> bool" where
  "spec_within_bounds min_date max_date p =
     ((case min_date of None \<Rightarrow> True | Some m \<Rightarrow> datetime_le m p = Inr True)
      \<and> (case max_date of None \<Rightarrow> True | Some m \<Rightarrow> datetime_le p m = Inr True))"

definition spec_retained :: "datetime option \<Rightarrow> datetime option \<Rightarrow> channel \<Rightarrow> bool" where
  "spec_retained min_date max_date c =
     (case parse_date (published_at c) of
        Inl e \<Rightarrow> False
      | Inr p \<Rightarrow> spec_within_bounds min_date max_date p)"

text \<open>
  Two notions for stating the claims about the loop: the channels whose statistics were
  found, in order, and the channels that the loop body appends (the date parses and
  neither test of lines 49 and 51 holds).
\<close>

fun resolved :: "'a option list \<Rightarrow> 'a list" where
  "resolved [] = []"
| "resolved (None # infos) = resolved infos"
| "resolved (Some c # infos) = c # resolved infos"

definition passes :: "datetime option \<Rightarrow> datetime option \<Rightarrow> channel \<Rightarrow> bool" where
  "passes min_date max_date c =
     (case parse_date (published_at c) of
        Inl e \<Rightarrow> False
      | Inr p \<Rightarrow> before_min min_date p = Inr False \<and> after_max max_date p = Inr False)"

section \<open>Scenarios\<close>

text \<open>
  Concrete inputs for the scenarios of the specification. The clock reads
  2024-04-10 12:00:00; scenario A is a channel created exactly 100 days before with
  1000 subscribers and 50000 views; scenario B has two channels of growth rate 50.0
  around it; scenario E is a channel published on the day of the analysis, and a
  channel published the day after (a skewed clock).
\<close>

definition clock :: datetime where
  "clock = \<lparr>year = 2024, month = 4, day = 10, hour = 12, minute = 0, second = 0,
            microsecond = 0, tzinfo = None\<rparr>"

definition channel_A :: channel where
  "channel_A = \<lparr>channel_id = ''UC-A'', title = ''Alpha'', subscriber_count = 1000,
                view_count = 50000, video_count = 12,
                published_at = ''2024-01-01T12:00:00Z''\<rparr>"

definition channel_B1 :: channel where
  "channel_B1 = \<lparr>channel_id = ''UC-B1'', title = ''Bravo one'', subscriber_count = 50,
                 view_count = 700, video_count = 3,
                 published_at = ''2024-01-01T12:00:00Z''\<rparr>"

definition channel_B2 :: channel where
  "channel_B2 = \<lparr>channel_id = ''UC-B2'', title = ''Bravo two'', subscriber_count = 100,
                 view_count = 900, video_count = 5,
                 published_at = ''2023-09-23T12:00:00.000Z''\<rparr>"

definition channel_today :: channel where
  "channel_today = \<lparr>channel_id = ''UC-E'', title = ''Echo'', subscriber_count = 1000,
                    view_count = 50000, video_count = 1,
                    published_at = ''2024-04-10T00:00:00Z''\<rparr>"

definition channel_tomorrow :: channel where
  "channel_tomorrow = \<lparr>channel_id = ''UC-F'', title = ''Foxtrot'', subscriber_count = 1000,
                       view_count = 50000, video_count = 1,
                       published_at = ''2024-04-11T00:00:00Z''\<rparr>"

text \<open>
  Scenario C: the range from 2020-01-01 to 2020-12-31 as \<^verbatim>\<open>main\<close> builds it (the first
  day at \<^verbatim>\<open>datetime.min.time()\<close>, the last at \<^verbatim>\<open>datetime.max.time()\<close>), and a service
  that knows four channels: one published on each bound, one on 2021-01-01, one on the
  last microsecond of 2019. The search response names a fifth id that has no statistics.
\<close>

definition min_2020 :: datetime where
  "min_2020 = \<lparr>year = 2020, month = 1, day = 1, hour = 0, minute = 0, second = 0,
               microsecond = 0, tzinfo = None\<rparr>"

definition max_2020 :: datetime where
  "max_2020 = \<lparr>year = 2020, month = 12, day = 31, hour = 23, minute = 59, second = 59,
               microsecond = 999999, tzinfo = None\<rparr>"

definition item_at :: "string \<Rightarrow> item" where
  "item_at p = \<lparr>snippet_title = ''T'', snippet_publishedAt = p, subscriberCount = 10,
                viewCount = 20, videoCount = 1\<rparr>"

definition api_C :: "string \<Rightarrow> item list" where
  "api_C cid =
     (if cid = ''lo'' then [item_at ''2020-01-01T00:00:00Z'']
      else if cid = ''hi'' then [item_at ''2020-12-31T23:59:59.999999Z'']
      else if cid = ''late'' then [item_at ''2021-01-01T00:00:00Z'']
      else if cid = ''early'' then [item_at ''2019-12-31T23:59:59.999999Z'']
      else [])"

definition response_C :: "string list" where
  "response_C = [''late'', ''lo'', ''gone'', ''early'', ''hi'']"

definition stats_at :: "string \<Rightarrow> string \<Rightarrow> channel" where
  "stats_at cid p = \<lparr>channel_id = cid, title = ''T'', subscriber_count = 10, view_count = 20,
                     video_count = 1, published_at = p\<rparr>"

section \<open>The loop and the sort of the analysis\<close>

text \<open>
  The loop returns a frame exactly when every channel from index \<open>i\<close> on has a record;
  it then appends these records, in order, and changes nothing else.
\<close>

lemma analyze_loop_iff:
  "analyze_loop now i st = Inr st' \<longleftrightarrow>
     (\<exists>rs. map (growth_record now) (drop i (channels st)) = map Inr rs
           \<and> st' = st\<lparr>results := results st @ rs\<rparr>)"
proof (induction now i st rule: analyze_loop.induct)
  case (1 now i st)
  show ?case
  proof (cases "i < length (channels st)")
    case False
    then show ?thesis by (auto simp: analyze_loop.simps [of now i st])
  next
    case True
    then have dr: "drop i (channels st) = channels st ! i # drop (Suc i) (channels st)"
      by (simp add: Cons_nth_drop_Suc)
    show ?thesis
    proof (cases "growth_record now (channels st ! i)")
      case (Inl e)
      have "analyze_loop now i st = Inl e"
        using True Inl by (simp add: analyze_loop.simps [of now i st])
      moreover have "\<not> (\<exists>rs. map (growth_record now) (drop i (channels st)) = map Inr rs
           \<and> st' = st\<lparr>results := results st @ rs\<rparr>)"
      proof
        assume "\<exists>rs. map (growth_record now) (drop i (channels st)) = map Inr rs
           \<and> st' = st\<lparr>results := results st @ rs\<rparr>"
        then obtain rs where "map (growth_record now) (drop i (channels st)) = map Inr rs" by blast
        then have "growth_record now (channels st ! i) # map (growth_record now) (drop (Suc i) (channels st)) = map Inr rs"
          using dr by simp
        then obtain r where "growth_record now (channels st ! i) = Inr r"
          by (cases rs) auto
        with Inl show False by simp
      qed
      ultimately show ?thesis by simp
    next
      case (Inr r)
      have step: "analyze_loop now i st = analyze_loop now (Suc i) (st\<lparr>results := results st @ [r]\<rparr>)"
        using True Inr by (simp add: analyze_loop.simps [of now i st])
      have ih: "analyze_loop now (Suc i) (st\<lparr>results := results st @ [r]\<rparr>) = Inr st' \<longleftrightarrow>
          (\<exists>rs. map (growth_record now) (drop (Suc i) (channels st)) = map Inr rs
             \<and> st' = st\<lparr>results := results st @ r # rs\<rparr>)"
        using "1.IH" [OF True Inr] by simp
      have "(\<exists>rs. map (growth_record now) (drop (Suc i) (channels st)) = map Inr rs
             \<and> st' = st\<lparr>results := results st @ r # rs\<rparr>) \<longleftrightarrow>
            (\<exists>rs. map (growth_record now) (drop i (channels st)) = map Inr rs
           \<and> st' = st\<lparr>results := results st @ rs\<rparr>)" (is "?L \<longleftrightarrow> ?R")
      proof
        assume ?L
        then obtain rs where a: "map (growth_record now) (drop (Suc i) (channels st)) = map Inr rs"
          and b: "st' = st\<lparr>results := results st @ r # rs\<rparr>" by blast
        have "map (growth_record now) (drop i (channels st)) = map Inr (r # rs)"
          using a Inr by (simp add: dr)
        with b show ?R by blast
      next
        assume ?R
        then obtain rs where a: "map (growth_record now) (drop i (channels st)) = map Inr rs"
          and b: "st' = st\<lparr>results := results st @ rs\<rparr>" by blast
        from a have "Inr r # map (growth_record now) (drop (Suc i) (channels st)) = map Inr rs"
          using Inr by (simp add: dr)
        then obtain rs' where "rs = r # rs'" "map (growth_record now) (drop (Suc i) (channels st)) = map Inr rs'"
          by (cases rs) auto
        with b show ?L by blast
      qed
      with step ih show ?thesis by simp
    qed
  qed
qed

lemma analyze_channels_growth_iff:
  "analyze_channels_growth now cs days = Inr out \<longleftrightarrow>
     (\<exists>rs. map (growth_record now) cs = map Inr rs \<and> out = sort_reverse growth_rate rs)"
proof -
  let ?st0 = "\<lparr>channels = cs, results = []\<rparr>"
  show ?thesis
  proof (cases "analyze_loop now 0 ?st0")
    case (Inl e)
    have "\<not> (\<exists>rs. map (growth_record now) cs = map Inr rs)"
    proof
      assume "\<exists>rs. map (growth_record now) cs = map Inr rs"
      then obtain rs where "map (growth_record now) cs = map Inr rs" by blast
      then have "analyze_loop now 0 ?st0 = Inr (?st0\<lparr>results := results ?st0 @ rs\<rparr>)"
        by (subst analyze_loop_iff) auto
      with Inl show False by simp
    qed
    with Inl show ?thesis
      by (auto simp: analyze_channels_growth_def analyze_frame_def)
  next
    case (Inr st)
    then obtain rs where rs: "map (growth_record now) cs = map Inr rs"
      and st: "st = ?st0\<lparr>results := rs\<rparr>"
      using analyze_loop_iff [of now 0 ?st0 st] by auto
    have uniq: "rs' = rs" if "map (growth_record now) cs = map Inr rs'" for rs'
      using that rs by (simp add: inj_map_eq_map)
    have "analyze_channels_growth now cs days = Inr (sort_reverse growth_rate rs)"
      using Inr st by (simp add: analyze_channels_growth_def analyze_frame_def)
    with rs uniq show ?thesis by auto
  qed
qed

lemma length_sort_reverse: "length (sort_reverse k xs) = length xs"
  by (simp add: sort_reverse_def)

lemma mset_sort_reverse: "mset (sort_reverse k xs) = mset xs"
  by (simp add: sort_reverse_def)

lemma set_sort_reverse: "set (sort_reverse k xs) = set xs"
  by (simp add: sort_reverse_def)

lemma sorted_sort_reverse: "sorted_wrt (\<lambda>a b. k b \<le> k a) (sort_reverse k xs)"
proof -
  have "sorted (map k (sort_key k (rev xs)))" by (rule sorted_sort_key)
  then have "sorted_wrt (\<lambda>a b. k a \<le> k b) (sort_key k (rev xs))"
    by (simp add: sorted_map)
  then show ?thesis
    by (simp add: sort_reverse_def sorted_wrt_rev)
qed

lemma stable_sort_reverse:
  "filter (\<lambda>y. k y = v) (sort_reverse k xs) = filter (\<lambda>y. k y = v) xs"
proof -
  have "filter (\<lambda>y. k y = v) (sort_reverse k xs) = rev (filter (\<lambda>y. k y = v) (sort_key k (rev xs)))"
    by (simp add: sort_reverse_def rev_filter)
  also have "\<dots> = rev (filter (\<lambda>y. k y = v) (rev xs))"
    by (simp only: sort_key_stable)
  also have "\<dots> = filter (\<lambda>y. k y = v) xs"
    by (simp add: rev_filter)
  finally show ?thesis .
qed

lemma growth_record_ok:
  "days_since now c = Inr d \<Longrightarrow> d \<noteq> 0 \<Longrightarrow>
   growth_record now c =
     Inr \<lparr>channel_name = title c, g_channel_id = channel_id c,
          current_subs = subscriber_count c, current_views = view_count c,
          g_published_at = published_at c, days_since_creation = d,
          daily_subs = of_int (subscriber_count c) / of_int d,
          daily_views = of_int (view_count c) / of_int d,
          growth_rate = of_int (subscriber_count c) / of_int d * 100\<rparr>"
  by (simp add: growth_record_def truediv_def)

lemma growth_record_zero:
  "days_since now c = Inr 0 \<Longrightarrow> growth_record now c = Inl ZeroDivisionError"
  by (simp add: growth_record_def truediv_def)

lemma growth_record_error:
  "days_since now c = Inl e \<Longrightarrow> growth_record now c = Inl e"
  by (simp add: growth_record_def)

lemma all_records:
  assumes "\<forall>c\<in>set cs. \<exists>d. days_since now c = Inr d \<and> 0 < d"
  shows "\<exists>rs. map (growth_record now) cs = map Inr rs"
  using assms
proof (induction cs)
  case Nil
  then show ?case by simp
next
  case (Cons c cs)
  then obtain rs where rs: "map (growth_record now) cs = map Inr rs" by auto
  from Cons.prems obtain d where "days_since now c = Inr d" "d \<noteq> 0" by auto
  then obtain r where "growth_record now c = Inr r"
    using growth_record_ok by blast
  with rs have "map (growth_record now) (c # cs) = map Inr (r # rs)" by simp
  then show ?case by blast
qed

section \<open>Claims about the analysis\<close>

text \<open>
  C9: the result of \<^verbatim>\<open>analyze_channels_growth\<close> does not depend on its \<^verbatim>\<open>days\<close>
  parameter: on the same channels and the same clock reading, any two values of
  \<^verbatim>\<open>days\<close> give the same result (the same list, or the same exception). The body
  never reads the parameter.
\<close>

theorem days_parameter_unused:
  "analyze_channels_growth now cs d1 = analyze_channels_growth now cs d2"
  unfolding analyze_channels_growth_def analyze_frame_def by (rule refl)

text \<open>
  C5: when every channel has a positive number of elapsed days, the analysis returns a
  list with exactly one record per input channel: the output has the length of the
  input and is a rearrangement of the records of the channels. The empty input gives
  the empty output, not an error.
\<close>

theorem analyze_cardinality:
  assumes "\<forall>c\<in>set cs. \<exists>d. days_since now c = Inr d \<and> 0 < d"
  shows "(\<exists>out rs. analyze_channels_growth now cs days = Inr out
            \<and> length out = length cs
            \<and> map (growth_record now) cs = map Inr rs \<and> mset out = mset rs)
         \<and> analyze_channels_growth now [] days = Inr []"
proof
  from all_records [OF assms] obtain rs where rs: "map (growth_record now) cs = map Inr rs"
    by blast
  then have len: "length rs = length cs"
    by (metis length_map)
  let ?out = "sort_reverse growth_rate rs"
  have "analyze_channels_growth now cs days = Inr ?out"
    using rs analyze_channels_growth_iff by blast
  moreover have "length ?out = length cs"
    using len by (simp add: length_sort_reverse)
  moreover have "mset ?out = mset rs"
    by (rule mset_sort_reverse)
  ultimately show "\<exists>out rs. analyze_channels_growth now cs days = Inr out
            \<and> length out = length cs
            \<and> map (growth_record now) cs = map Inr rs \<and> mset out = mset rs"
    using rs by blast
next
  have "map (growth_record now) [] = map Inr []" by simp
  then have "analyze_channels_growth now [] days = Inr (sort_reverse growth_rate [])"
    using analyze_channels_growth_iff by blast
  then show "analyze_channels_growth now [] days = Inr []"
    by (simp add: sort_reverse_def)
qed

theorem analyze_cardinality_witness:
  "\<exists>out. analyze_channels_growth clock [channel_B1, channel_A, channel_B2] 30 = Inr out
         \<and> length out = 3"
proof -
  have "days_since clock channel_A = Inr 100" by code_simp
  moreover have "days_since clock channel_B1 = Inr 100" by code_simp
  moreover have "days_since clock channel_B2 = Inr 200" by code_simp
  ultimately have h: "\<forall>c\<in>set [channel_B1, channel_A, channel_B2].
      \<exists>d. days_since clock c = Inr d \<and> 0 < d"
    by simp
  show ?thesis using analyze_cardinality [OF h, of 30] by auto
qed

lemma records_nth:
  assumes "map (growth_record now) cs = map Inr rs" "i < length cs"
  shows "growth_record now (cs ! i) = Inr (rs ! i)"
proof -
  have "length rs = length cs" using assms(1) by (metis length_map)
  then have "map (growth_record now) cs ! i = map Inr rs ! i \<and> i < length rs"
    using assms by simp
  then show ?thesis using assms(2) by simp
qed

text \<open>
  C3: when every channel has a positive number of elapsed days, the analysis returns a
  list in descending order of \<^verbatim>\<open>growth_rate\<close> (each record's rate is at least the
  next one's), and the sort is stable: for every rate, the records of that rate stand
  in the output in the order of their channels in the input.
\<close>

theorem analyze_sorted_stable:
  assumes "\<forall>c\<in>set cs. \<exists>d. days_since now c = Inr d \<and> 0 < d"
  shows "\<exists>out rs. analyze_channels_growth now cs days = Inr out
           \<and> map (growth_record now) cs = map Inr rs
           \<and> (\<forall>i. Suc i < length out \<longrightarrow> growth_rate (out ! Suc i) \<le> growth_rate (out ! i))
           \<and> (\<forall>k. filter (\<lambda>r. growth_rate r = k) out = filter (\<lambda>r. growth_rate r = k) rs)"
proof -
  from all_records [OF assms] obtain rs where rs: "map (growth_record now) cs = map Inr rs"
    by blast
  let ?out = "sort_reverse growth_rate rs"
  have ret: "analyze_channels_growth now cs days = Inr ?out"
    using rs analyze_channels_growth_iff by blast
  have desc: "sorted_wrt (\<lambda>a b. growth_rate b \<le> growth_rate a) ?out"
    by (rule sorted_sort_reverse)
  have adj: "growth_rate (?out ! Suc i) \<le> growth_rate (?out ! i)" if "Suc i < length ?out" for i
    using desc that by (simp add: sorted_wrt_iff_nth_less)
  have stab: "filter (\<lambda>r. growth_rate r = k) ?out = filter (\<lambda>r. growth_rate r = k) rs" for k
    by (rule stable_sort_reverse)
  from ret rs adj stab show ?thesis by blast
qed

theorem analyze_sorted_stable_witness:
  "\<exists>out. analyze_channels_growth clock [channel_B1, channel_A, channel_B2] 30 = Inr out
        \<and> growth_rate (out ! 1) \<le> growth_rate (out ! 0)
        \<and> growth_rate (out ! 2) \<le> growth_rate (out ! 1)
        \<and> map channel_name (filter (\<lambda>r. growth_rate r = 50) out) = [''Bravo one'', ''Bravo two'']"
proof -
  let ?cs = "[channel_B1, channel_A, channel_B2]"
  have rB1: "growth_record clock channel_B1 =
      Inr \<lparr>channel_name = ''Bravo one'', g_channel_id = ''UC-B1'', current_subs = 50,
           current_views = 700, g_published_at = ''2024-01-01T12:00:00Z'',
           days_since_creation = 100, daily_subs = 1 / 2, daily_views = 7,
           growth_rate = 50\<rparr>" by code_simp
  have rA: "growth_record clock channel_A =
      Inr \<lparr>channel_name = ''Alpha'', g_channel_id = ''UC-A'', current_subs = 1000,
           current_views = 50000, g_published_at = ''2024-01-01T12:00:00Z'',
           days_since_creation = 100, daily_subs = 10, daily_views = 500,
           growth_rate = 1000\<rparr>" by code_simp
  have rB2: "growth_record clock channel_B2 =
      Inr \<lparr>channel_name = ''Bravo two'', g_channel_id = ''UC-B2'', current_subs = 100,
           current_views = 900, g_published_at = ''2023-09-23T12:00:00.000Z'',
           days_since_creation = 200, daily_subs = 1 / 2, daily_views = 9 / 2,
           growth_rate = 50\<rparr>" by code_simp
  have "days_since clock channel_A = Inr 100" by code_simp
  moreover have "days_since clock channel_B1 = Inr 100" by code_simp
  moreover have "days_since clock channel_B2 = Inr 200" by code_simp
  ultimately have h: "\<forall>c\<in>set ?cs. \<exists>d. days_since clock c = Inr d \<and> 0 < d"
    by simp
  have ex: "\<exists>out rs. analyze_channels_growth clock ?cs 30 = Inr out
           \<and> map (growth_record clock) ?cs = map Inr rs
           \<and> (\<forall>i. Suc i < length out \<longrightarrow> growth_rate (out ! Suc i) \<le> growth_rate (out ! i))
           \<and> (\<forall>k. filter (\<lambda>r. growth_rate r = k) out = filter (\<lambda>r. growth_rate r = k) rs)"
    by (rule analyze_sorted_stable [OF h])
  then obtain out rs where
    ret: "analyze_channels_growth clock ?cs 30 = Inr out"
    and rs: "map (growth_record clock) ?cs = map Inr rs"
    and adj: "\<forall>i. Suc i < length out \<longrightarrow> growth_rate (out ! Suc i) \<le> growth_rate (out ! i)"
    and stab: "\<forall>k. filter (\<lambda>r. growth_rate r = k) out = filter (\<lambda>r. growth_rate r = k) rs"
    apply (elim exE conjE)
    apply (rule that)
       apply assumption+
    done
  from rs obtain r1 t1 where 1: "rs = r1 # t1" "growth_record clock channel_B1 = Inr r1"
    "map (growth_record clock) [channel_A, channel_B2] = map Inr t1"
    by (cases rs) auto
  from 1(3) obtain r2 t2 where 2: "t1 = r2 # t2" "growth_record clock channel_A = Inr r2"
    "map (growth_record clock) [channel_B2] = map Inr t2"
    by (cases t1) auto
  from 2(3) obtain r3 where 3: "t2 = [r3]" "growth_record clock channel_B2 = Inr r3"
    by (cases t2) auto
  have rs3: "rs = [r1, r2, r3]" using 1(1) 2(1) 3(1) by simp
  have g1: "growth_rate r1 = 50" "channel_name r1 = ''Bravo one''"
    using 1(2) rB1 by auto
  have g2: "growth_rate r2 = 1000" using 2(2) rA by auto
  have g3: "growth_rate r3 = 50" "channel_name r3 = ''Bravo two''"
    using 3(2) rB2 by auto
  from ret obtain rs' where a: "map (growth_record clock) ?cs = map Inr rs'"
    and b: "out = sort_reverse growth_rate rs'"
    unfolding analyze_channels_growth_iff by (elim exE conjE)
  from a rs have "length rs' = length rs" by (metis length_map)
  with b rs3 have len: "length out = 3" by (simp add: length_sort_reverse)
  have "filter (\<lambda>r. growth_rate r = 50) out = filter (\<lambda>r. growth_rate r = 50) rs"
    using stab by (rule spec)
  also have "\<dots> = [r1, r3]"
    unfolding rs3 using g1 g2 g3 by simp
  finally have names: "map channel_name (filter (\<lambda>r. growth_rate r = 50) out) = [''Bravo one'', ''Bravo two'']"
    using g1 g3 by simp
  have "Suc 0 < length out" using len by simp
  then have "growth_rate (out ! Suc 0) \<le> growth_rate (out ! 0)"
    using adj by (simp only:)
  then have first: "growth_rate (out ! 1) \<le> growth_rate (out ! 0)" by simp
  have "Suc 1 < length out" using len by simp
  then have "growth_rate (out ! Suc 1) \<le> growth_rate (out ! 1)"
    using adj by (simp only:)
  then have second: "growth_rate (out ! 2) \<le> growth_rate (out ! 1)"
    by (simp only: Suc_1)
  show ?thesis
    apply (rule exI [of _ out])
    apply (intro conjI)
       apply (rule ret)
      apply (rule first)
     apply (rule second)
    apply (rule names)
    done
qed

text \<open>
  C4: for a channel with \<open>d > 0\<close> elapsed days the analysis computes
  \<^verbatim>\<open>daily_subs = subscriber_count / d\<close>, \<^verbatim>\<open>daily_views = view_count / d\<close> and
  \<^verbatim>\<open>growth_rate = (subscriber_count / d) * 100\<close>, which is \<^verbatim>\<open>daily_subs * 100\<close>: this is
  the record of the loop body, the result of the analysis of the channel alone, and a
  member of the result of every successful analysis of a list that holds the channel.
  Scenario A (100 days, 1000 subscribers, 50000 views) gives 10, 1000 and 500.
\<close>

theorem growth_formulas:
  assumes "days_since now c = Inr d" and "0 < d"
  shows "\<exists>r. growth_record now c = Inr r
           \<and> days_since_creation r = d
           \<and> daily_subs r = of_int (subscriber_count c) / of_int d
           \<and> daily_views r = of_int (view_count c) / of_int d
           \<and> growth_rate r = (of_int (subscriber_count c) / of_int d) * 100
           \<and> growth_rate r = daily_subs r * 100
           \<and> analyze_channels_growth now [c] days = Inr [r]
           \<and> (\<forall>cs out. c \<in> set cs \<and> analyze_channels_growth now cs days = Inr out
                 \<longrightarrow> r \<in> set out)"
proof -
  let ?r = "\<lparr>channel_name = title c, g_channel_id = channel_id c,
          current_subs = subscriber_count c, current_views = view_count c,
          g_published_at = published_at c, days_since_creation = d,
          daily_subs = of_int (subscriber_count c) / of_int d,
          daily_views = of_int (view_count c) / of_int d,
          growth_rate = of_int (subscriber_count c) / of_int d * 100\<rparr>"
  have rec: "growth_record now c = Inr ?r"
    using assms growth_record_ok [of now c d] by simp
  have "map (growth_record now) [c] = map Inr [?r]"
    using rec by simp
  then have "analyze_channels_growth now [c] days = Inr (sort_reverse growth_rate [?r])"
    unfolding analyze_channels_growth_iff by (intro exI conjI) (assumption, rule refl)
  then have single: "analyze_channels_growth now [c] days = Inr [?r]"
    by (simp add: sort_reverse_def)
  have member: "?r \<in> set out"
    if "c \<in> set cs" and ret: "analyze_channels_growth now cs days = Inr out" for cs out
  proof -
    from ret obtain rs where rs: "map (growth_record now) cs = map Inr rs"
      and out: "out = sort_reverse growth_rate rs"
      unfolding analyze_channels_growth_iff by (elim exE conjE)
    from \<open>c \<in> set cs\<close> have "growth_record now c \<in> set (map (growth_record now) cs)"
      by simp
    then have "(Inr ?r :: error + growth) \<in> set (map Inr rs)" using rs rec by simp
    then have "?r \<in> set rs" by auto
    then show ?thesis using out by (simp add: set_sort_reverse)
  qed
  show ?thesis
    apply (rule exI [of _ ?r])
    apply (intro conjI allI impI)
           apply (rule rec)
          apply simp
         apply simp
        apply simp
       apply simp
      apply simp
     apply (rule single)
    apply (erule conjE)
    apply (erule (1) member)
    done
qed

theorem growth_formulas_witness:
  "analyze_channels_growth clock [channel_A] 30 =
     Inr [\<lparr>channel_name = ''Alpha'', g_channel_id = ''UC-A'', current_subs = 1000,
           current_views = 50000, g_published_at = ''2024-01-01T12:00:00Z'',
           days_since_creation = 100, daily_subs = 10, daily_views = 500,
           growth_rate = 1000\<rparr>]"
proof -
  have d: "days_since clock channel_A = Inr 100" by code_simp
  have pos: "(0::int) < 100" by simp
  have ex: "\<exists>r. growth_record clock channel_A = Inr r
           \<and> days_since_creation r = 100
           \<and> daily_subs r = of_int (subscriber_count channel_A) / of_int 100
           \<and> daily_views r = of_int (view_count channel_A) / of_int 100
           \<and> growth_rate r = (of_int (subscriber_count channel_A) / of_int 100) * 100
           \<and> growth_rate r = daily_subs r * 100
           \<and> analyze_channels_growth clock [channel_A] 30 = Inr [r]
           \<and> (\<forall>cs out. channel_A \<in> set cs \<and> analyze_channels_growth clock cs 30 = Inr out
                 \<longrightarrow> r \<in> set out)"
    by (rule growth_formulas [OF d pos])
  then obtain r where rec: "growth_record clock channel_A = Inr r"
    and dsc: "days_since_creation r = 100"
    and subs: "daily_subs r = of_int (subscriber_count channel_A) / of_int 100"
    and views: "daily_views r = of_int (view_count channel_A) / of_int 100"
    and rate: "growth_rate r = daily_subs r * 100"
    and ret: "analyze_channels_growth clock [channel_A] 30 = Inr [r]"
    apply (elim exE conjE)
    apply (rule that)
         apply assumption+
    done
  have fixed: "channel_name r = ''Alpha'' \<and> g_channel_id r = ''UC-A'' \<and> current_subs r = 1000
      \<and> current_views r = 50000 \<and> g_published_at r = ''2024-01-01T12:00:00Z''"
    using rec d by (auto simp: growth_record_def channel_A_def split: sum.splits)
  have "daily_subs r = 10" using subs by (simp add: channel_A_def)
  moreover have "daily_views r = 500" using views by (simp add: channel_A_def)
  moreover have "growth_rate r = 1000" using rate \<open>daily_subs r = 10\<close> by simp
  ultimately have "r = \<lparr>channel_name = ''Alpha'', g_channel_id = ''UC-A'', current_subs = 1000,
           current_views = 50000, g_published_at = ''2024-01-01T12:00:00Z'',
           days_since_creation = 100, daily_subs = 10, daily_views = 500,
           growth_rate = 1000\<rparr>"
    using fixed dsc by (cases r) simp
  with ret show ?thesis by simp
qed

lemma analyze_frame_iff:
  "analyze_frame now cs days = Inr st \<longleftrightarrow>
     (\<exists>rs. map (growth_record now) cs = map Inr rs
          \<and> st = \<lparr>channels = cs, results = sort_reverse growth_rate rs\<rparr>)"
proof -
  let ?st0 = "\<lparr>channels = cs, results = []\<rparr>"
  show ?thesis
  proof (cases "analyze_loop now 0 ?st0")
    case (Inl e)
    have "\<not> (\<exists>rs. map (growth_record now) cs = map Inr rs)"
    proof
      assume "\<exists>rs. map (growth_record now) cs = map Inr rs"
      then obtain rs where "map (growth_record now) cs = map Inr rs" by (elim exE)
      then have "analyze_loop now 0 ?st0 = Inr (?st0\<lparr>results := results ?st0 @ rs\<rparr>)"
        by (subst analyze_loop_iff) auto
      with Inl show False by simp
    qed
    with Inl show ?thesis
      by (simp add: analyze_frame_def)
  next
    case (Inr st1)
    then obtain rs where rs: "map (growth_record now) cs = map Inr rs"
      and st1: "st1 = ?st0\<lparr>results := rs\<rparr>"
      using analyze_loop_iff [of now 0 ?st0 st1] by auto
    have uniq: "rs' = rs" if "map (growth_record now) cs = map Inr rs'" for rs'
      using that rs by (simp add: inj_map_eq_map)
    have "analyze_frame now cs days = Inr \<lparr>channels = cs, results = sort_reverse growth_rate rs\<rparr>"
      using Inr st1 by (simp add: analyze_frame_def)
    with rs uniq show ?thesis by auto
  qed
qed

lemma growth_record_fields:
  assumes "growth_record now c = Inr r"
  shows "channel_name r = title c \<and> g_channel_id r = channel_id c
       \<and> current_subs r = subscriber_count c \<and> current_views r = view_count c
       \<and> g_published_at r = published_at c"
  using assms by (auto simp: growth_record_def split: sum.splits)

lemma all_records_nonzero:
  assumes "\<forall>c\<in>set cs. \<exists>d. days_since now c = Inr d \<and> d \<noteq> 0"
  shows "\<exists>rs. map (growth_record now) cs = map Inr rs"
  using assms
proof (induction cs)
  case Nil
  then show ?case by simp
next
  case (Cons c cs)
  then obtain rs where rs: "map (growth_record now) cs = map Inr rs" by auto
  from Cons.prems obtain d where "days_since now c = Inr d" "d \<noteq> 0" by auto
  then obtain r where "growth_record now c = Inr r"
    using growth_record_ok by blast
  with rs have "map (growth_record now) (c # cs) = map Inr (r # rs)" by simp
  then show ?case by (rule exI)
qed

text \<open>
  C10: the record of a channel carries the channel's \<^verbatim>\<open>title\<close>, \<^verbatim>\<open>channel_id\<close>,
  \<^verbatim>\<open>subscriber_count\<close>, \<^verbatim>\<open>view_count\<close> and \<^verbatim>\<open>published_at\<close> text unchanged, and the
  input list is not modified. First, for a channel with a positive number \<open>d\<close> of
  elapsed days the loop body builds a record with these five fields copied and with
  \<^verbatim>\<open>days_since_creation = d\<close>, whatever the other channels of the list are. Second, in
  every run of the analysis that returns, on any list, there is one record per channel
  (\<open>rs\<close>, in input order, the record at each position being the one of the channel at
  that position), each with the five fields of its channel, the result is a
  rearrangement of these records, and the list \<^verbatim>\<open>channels\<close> is at return what it was
  at the call. Third, the analysis returns whenever every channel of the list has a
  defined number of elapsed days that is not zero.
\<close>

theorem analyze_carries_fields:
  "(\<forall>c d. days_since now c = Inr d \<and> 0 < d \<longrightarrow>
      (\<exists>r. growth_record now c = Inr r \<and> days_since_creation r = d
          \<and> channel_name r = title c \<and> g_channel_id r = channel_id c
          \<and> current_subs r = subscriber_count c \<and> current_views r = view_count c
          \<and> g_published_at r = published_at c))
   \<and> (\<forall>st. analyze_frame now cs days = Inr st \<longrightarrow>
         channels st = cs
         \<and> analyze_channels_growth now cs days = Inr (results st)
         \<and> (\<exists>rs. map (growth_record now) cs = map Inr rs
               \<and> mset (results st) = mset rs
               \<and> map channel_name rs = map title cs
               \<and> map g_channel_id rs = map channel_id cs
               \<and> map current_subs rs = map subscriber_count cs
               \<and> map current_views rs = map view_count cs
               \<and> map g_published_at rs = map published_at cs))
   \<and> ((\<forall>c\<in>set cs. \<exists>d. days_since now c = Inr d \<and> d \<noteq> 0) \<longrightarrow>
         (\<exists>st. analyze_frame now cs days = Inr st))"
proof (intro conjI allI impI)
  fix c d
  assume a: "days_since now c = Inr d \<and> 0 < d"
  then have "days_since now c = Inr d" and "d \<noteq> 0" by simp_all
  from growth_record_ok [OF this]
  show "\<exists>r. growth_record now c = Inr r \<and> days_since_creation r = d
          \<and> channel_name r = title c \<and> g_channel_id r = channel_id c
          \<and> current_subs r = subscriber_count c \<and> current_views r = view_count c
          \<and> g_published_at r = published_at c"
    by simp
next
  fix st
  assume fr: "analyze_frame now cs days = Inr st"
  then obtain rs where rs: "map (growth_record now) cs = map Inr rs"
    and st: "st = \<lparr>channels = cs, results = sort_reverse growth_rate rs\<rparr>"
    unfolding analyze_frame_iff by (elim exE conjE)
  show "channels st = cs" by (simp add: st)
  show "analyze_channels_growth now cs days = Inr (results st)"
    using fr by (simp add: analyze_channels_growth_def)
  have len: "length rs = length cs" using rs by (metis length_map)
  have each: "channel_name (rs ! i) = title (cs ! i) \<and> g_channel_id (rs ! i) = channel_id (cs ! i)
       \<and> current_subs (rs ! i) = subscriber_count (cs ! i)
       \<and> current_views (rs ! i) = view_count (cs ! i)
       \<and> g_published_at (rs ! i) = published_at (cs ! i)" if "i < length cs" for i
    using growth_record_fields [OF records_nth [OF rs that]] .
  have f1: "map channel_name rs = map title cs"
    using len each by (simp add: list_eq_iff_nth_eq)
  have f2: "map g_channel_id rs = map channel_id cs"
    using len each by (simp add: list_eq_iff_nth_eq)
  have f3: "map current_subs rs = map subscriber_count cs"
    using len each by (simp add: list_eq_iff_nth_eq)
  have f4: "map current_views rs = map view_count cs"
    using len each by (simp add: list_eq_iff_nth_eq)
  have f5: "map g_published_at rs = map published_at cs"
    using len each by (simp add: list_eq_iff_nth_eq)
  have ms: "mset (results st) = mset rs" by (simp add: st mset_sort_reverse)
  show "\<exists>rs. map (growth_record now) cs = map Inr rs
               \<and> mset (results st) = mset rs
               \<and> map channel_name rs = map title cs
               \<and> map g_channel_id rs = map channel_id cs
               \<and> map current_subs rs = map subscriber_count cs
               \<and> map current_views rs = map view_count cs
               \<and> map g_published_at rs = map published_at cs"
    apply (rule exI [of _ rs])
    apply (intro conjI)
          apply (rule rs)
         apply (rule ms)
        apply (rule f1)
       apply (rule f2)
      apply (rule f3)
     apply (rule f4)
    apply (rule f5)
    done
next
  assume "\<forall>c\<in>set cs. \<exists>d. days_since now c = Inr d \<and> d \<noteq> 0"
  from all_records_nonzero [OF this] obtain rs where rs: "map (growth_record now) cs = map Inr rs"
    by (elim exE)
  have "analyze_frame now cs days = Inr \<lparr>channels = cs, results = sort_reverse growth_rate rs\<rparr>"
    unfolding analyze_frame_iff using rs by (intro exI conjI) (assumption, rule refl)
  then show "\<exists>st. analyze_frame now cs days = Inr st" by (rule exI)
qed

theorem analyze_carries_fields_witness:
  "\<exists>st. analyze_frame clock [channel_tomorrow, channel_A] 30 = Inr st
      \<and> channels st = [channel_tomorrow, channel_A]
      \<and> map channel_name (results st) = [''Alpha'', ''Foxtrot'']
      \<and> map g_channel_id (results st) = [''UC-A'', ''UC-F'']
      \<and> map current_subs (results st) = [1000, 1000]
      \<and> map current_views (results st) = [50000, 50000]
      \<and> map g_published_at (results st) = [''2024-01-01T12:00:00Z'', ''2024-04-11T00:00:00Z'']"
proof -
  let ?cs = "[channel_tomorrow, channel_A]"
  note inst = analyze_carries_fields [of clock ?cs 30]
  have "days_since clock channel_A = Inr 100" by code_simp
  moreover have "days_since clock channel_tomorrow = Inr (- 1)" by code_simp
  ultimately have h: "\<forall>c\<in>set ?cs. \<exists>d. days_since clock c = Inr d \<and> d \<noteq> 0"
    by simp
  from inst [THEN conjunct2, THEN conjunct2, THEN mp, OF h]
  obtain st where fr: "analyze_frame clock ?cs 30 = Inr st" by (elim exE)
  note post = inst [THEN conjunct2, THEN conjunct1, THEN spec, THEN mp, OF fr]
  have ch: "channels st = ?cs" by (rule post [THEN conjunct1])
  have ret: "analyze_channels_growth clock ?cs 30 = Inr (results st)"
    by (rule post [THEN conjunct2, THEN conjunct1])
  have ev: "analyze_channels_growth clock ?cs 30 =
      Inr [\<lparr>channel_name = ''Alpha'', g_channel_id = ''UC-A'', current_subs = 1000,
            current_views = 50000, g_published_at = ''2024-01-01T12:00:00Z'',
            days_since_creation = 100, daily_subs = 10, daily_views = 500,
            growth_rate = 1000\<rparr>,
           \<lparr>channel_name = ''Foxtrot'', g_channel_id = ''UC-F'', current_subs = 1000,
            current_views = 50000, g_published_at = ''2024-04-11T00:00:00Z'',
            days_since_creation = - 1, daily_subs = - 1000, daily_views = - 50000,
            growth_rate = - 100000\<rparr>]"
    by code_simp
  from ret ev have res: "results st =
        [\<lparr>channel_name = ''Alpha'', g_channel_id = ''UC-A'', current_subs = 1000,
            current_views = 50000, g_published_at = ''2024-01-01T12:00:00Z'',
            days_since_creation = 100, daily_subs = 10, daily_views = 500,
            growth_rate = 1000\<rparr>,
           \<lparr>channel_name = ''Foxtrot'', g_channel_id = ''UC-F'', current_subs = 1000,
            current_views = 50000, g_published_at = ''2024-04-11T00:00:00Z'',
            days_since_creation = - 1, daily_subs = - 1000, daily_views = - 50000,
            growth_rate = - 100000\<rparr>]"
    by simp
  show ?thesis
    apply (rule exI [of _ st])
    apply (intro conjI)
          apply (rule fr)
         apply (rule ch)
        apply (simp_all only: res list.map growth.simps)
    done
qed

section \<open>The date filter\<close>

lemma cmp_flip: "cmp y x = - cmp x (y::'a::linorder)"
  by (auto simp: cmp_def)

lemma base_delta_flip: "base_delta b a = - base_delta a b"
  by (simp add: base_delta_def algebra_simps)

lemma datetime_cmp_flip:
  assumes "datetime_cmp a b = Inr c"
  shows "datetime_cmp b a = Inr (- c)"
proof (cases "tzinfo a = tzinfo b")
  case True
  with assms have "c = cmp (field_tuple a) (field_tuple b)" by (simp add: datetime_cmp_def)
  with True show ?thesis by (simp add: datetime_cmp_def cmp_flip [of "field_tuple b"])
next
  case False
  with assms obtain x y where xy: "tzinfo a = Some x" "tzinfo b = Some y"
    and c: "c = cmp (base_delta a b + y - x) 0"
    by (auto simp: datetime_cmp_def split: option.splits)
  have "cmp (base_delta b a + x - y) 0 = - cmp (base_delta a b + y - x) 0"
    by (simp add: base_delta_flip [of b a] cmp_def)
  with False xy c show ?thesis by (simp add: datetime_cmp_def)
qed

lemma datetime_cmp_total:
  assumes "(tzinfo a = None) = (tzinfo b = None)"
  shows "\<exists>c. datetime_cmp a b = Inr c"
  using assms by (cases "tzinfo a"; cases "tzinfo b") (auto simp: datetime_cmp_def)

text \<open>
  A comparison that returns decides the bound the way the specification reads it:
  \<^verbatim>\<open>published_at < min_date\<close> is false exactly when \<^verbatim>\<open>min_date <= published_at\<close>.
\<close>

lemma lt_is_not_le:
  assumes "datetime_lt p m = Inr b"
  shows "datetime_le m p = Inr (\<not> b)"
proof -
  from assms obtain c where c: "datetime_cmp p m = Inr c" and b: "b = (c < 0)"
    by (cases "datetime_cmp p m") (auto simp: datetime_lt_def)
  from datetime_cmp_flip [OF c] b show ?thesis by (auto simp: datetime_le_def)
qed

lemma gt_is_not_le:
  assumes "datetime_gt p m = Inr b"
  shows "datetime_le p m = Inr (\<not> b)"
proof -
  from assms obtain c where c: "datetime_cmp p m = Inr c" and b: "b = (c > 0)"
    by (cases "datetime_cmp p m") (auto simp: datetime_gt_def)
  then show ?thesis by (auto simp: datetime_le_def)
qed

lemma before_min_total:
  assumes "\<forall>m. min_date = Some m \<longrightarrow> (tzinfo m = None) = (tzinfo p = None)"
  shows "\<exists>b. before_min min_date p = Inr b"
proof (cases min_date)
  case None
  then show ?thesis by (auto simp: before_min_def)
next
  case (Some m)
  with assms have "(tzinfo p = None) = (tzinfo m = None)" by simp
  from datetime_cmp_total [OF this] Some show ?thesis
    by (auto simp: before_min_def datetime_lt_def)
qed

lemma after_max_total:
  assumes "\<forall>m. max_date = Some m \<longrightarrow> (tzinfo m = None) = (tzinfo p = None)"
  shows "\<exists>b. after_max max_date p = Inr b"
proof (cases max_date)
  case None
  then show ?thesis by (auto simp: after_max_def)
next
  case (Some m)
  with assms have "(tzinfo p = None) = (tzinfo m = None)" by simp
  from datetime_cmp_total [OF this] Some show ?thesis
    by (auto simp: after_max_def datetime_gt_def)
qed

lemma within_bounds_decided:
  assumes "before_min min_date p = Inr b1" and "after_max max_date p = Inr b2"
  shows "spec_within_bounds min_date max_date p = (\<not> b1 \<and> \<not> b2)"
proof -
  have lo: "(case min_date of None \<Rightarrow> True | Some m \<Rightarrow> datetime_le m p = Inr True) = (\<not> b1)"
    using assms(1) by (cases min_date) (auto simp: before_min_def dest: lt_is_not_le)
  have hi: "(case max_date of None \<Rightarrow> True | Some m \<Rightarrow> datetime_le p m = Inr True) = (\<not> b2)"
    using assms(2) by (cases max_date) (auto simp: after_max_def dest: gt_is_not_le)
  show ?thesis unfolding spec_within_bounds_def lo hi ..
qed

lemma search_loop_filter:
  assumes "\<forall>c\<in>set (resolved infos). \<exists>p. parse_date (published_at c) = Inr p
             \<and> (\<forall>m. min_date = Some m \<longrightarrow> (tzinfo m = None) = (tzinfo p = None))
             \<and> (\<forall>m. max_date = Some m \<longrightarrow> (tzinfo m = None) = (tzinfo p = None))"
  shows "search_loop min_date max_date infos acc =
           Inr (acc @ filter (spec_retained min_date max_date) (resolved infos))"
  using assms
proof (induction infos arbitrary: acc)
  case Nil
  then show ?case by simp
next
  case (Cons info infos)
  show ?case
  proof (cases info)
    case None
    with Cons.prems have "\<forall>c\<in>set (resolved infos). \<exists>p. parse_date (published_at c) = Inr p
             \<and> (\<forall>m. min_date = Some m \<longrightarrow> (tzinfo m = None) = (tzinfo p = None))
             \<and> (\<forall>m. max_date = Some m \<longrightarrow> (tzinfo m = None) = (tzinfo p = None))"
      by simp
    from Cons.IH [OF this] None show ?thesis by simp
  next
    case (Some c)
    then have mf: "resolved (info # infos) = c # resolved infos"
      by simp
    with Cons.prems have rest: "\<forall>c\<in>set (resolved infos). \<exists>p. parse_date (published_at c) = Inr p
             \<and> (\<forall>m. min_date = Some m \<longrightarrow> (tzinfo m = None) = (tzinfo p = None))
             \<and> (\<forall>m. max_date = Some m \<longrightarrow> (tzinfo m = None) = (tzinfo p = None))"
      by simp
    from Cons.prems mf obtain p where p: "parse_date (published_at c) = Inr p"
      and cmin: "\<forall>m. min_date = Some m \<longrightarrow> (tzinfo m = None) = (tzinfo p = None)"
      and cmax: "\<forall>m. max_date = Some m \<longrightarrow> (tzinfo m = None) = (tzinfo p = None)"
      by auto
    from before_min_total [OF cmin] obtain b1 where b1: "before_min min_date p = Inr b1" ..
    from after_max_total [OF cmax] obtain b2 where b2: "after_max max_date p = Inr b2" ..
    have ret: "spec_retained min_date max_date c = (\<not> b1 \<and> \<not> b2)"
      using p within_bounds_decided [OF b1 b2] by (simp add: spec_retained_def)
    have step: "search_loop min_date max_date (info # infos) acc =
        search_loop min_date max_date infos (if \<not> b1 \<and> \<not> b2 then acc @ [c] else acc)"
      using Some p b1 b2 by (cases b1; cases b2) simp_all
    show ?thesis
      unfolding step Cons.IH [OF rest] mf using ret by simp
  qed
qed

text \<open>What a successful run of the loop says about the channels it appended.\<close>

lemma search_loop_kept:
  assumes "search_loop min_date max_date infos acc = Inr out"
  shows "\<exists>ks. out = acc @ ks \<and> list_all (passes min_date max_date) ks"
  using assms
proof (induction infos arbitrary: acc)
  case Nil
  then show ?case by simp
next
  case (Cons info infos)
  show ?case
  proof (cases info)
    case None
    with Cons.prems have "search_loop min_date max_date infos acc = Inr out" by simp
    then show ?thesis by (rule Cons.IH)
  next
    case (Some c)
    note run = Cons.prems [unfolded Some]
    from run obtain p where p: "parse_date (published_at c) = Inr p"
      by (cases "parse_date (published_at c)") auto
    from run p obtain b1 where b1: "before_min min_date p = Inr b1"
      by (cases "before_min min_date p") auto
    show ?thesis
    proof (cases b1)
      case True
      with run p b1 have "search_loop min_date max_date infos acc = Inr out" by simp
      then show ?thesis by (rule Cons.IH)
    next
      case False
      from run p b1 False obtain b2 where b2: "after_max max_date p = Inr b2"
        by (cases "after_max max_date p") auto
      show ?thesis
      proof (cases b2)
        case True
        with run p b1 b2 False have "search_loop min_date max_date infos acc = Inr out"
          by simp
        then show ?thesis by (rule Cons.IH)
      next
        case b2F: False
        with run p b1 b2 False
        have "search_loop min_date max_date infos (acc @ [c]) = Inr out" by simp
        from Cons.IH [OF this]
        obtain ks where ks: "out = (acc @ [c]) @ ks" "list_all (passes min_date max_date) ks"
          by (elim exE conjE)
        have "passes min_date max_date c"
          using p b1 b2 False b2F by (simp add: passes_def)
        with ks have "out = acc @ (c # ks) \<and> list_all (passes min_date max_date) (c # ks)"
          by simp
        then show ?thesis by (rule exI)
      qed
    qed
  qed
qed

lemma search_loop_passes:
  assumes "list_all (passes min_date max_date) ks"
  shows "search_loop min_date max_date (map Some ks) acc = Inr (acc @ ks)"
  using assms
proof (induction ks arbitrary: acc)
  case Nil
  then show ?case by simp
next
  case (Cons c ks)
  then obtain p where "parse_date (published_at c) = Inr p"
    "before_min min_date p = Inr False" "after_max max_date p = Inr False"
    by (cases "parse_date (published_at c)") (auto simp: passes_def)
  then have "search_loop min_date max_date (map Some (c # ks)) acc =
      search_loop min_date max_date (map Some ks) (acc @ [c])"
    by simp
  also have "\<dots> = Inr ((acc @ [c]) @ ks)"
    using Cons by simp
  finally show ?case by simp
qed

text \<open>
  C6: the date filter of the search is inclusive at both ends. Whenever every channel
  whose statistics were found has a parseable \<^verbatim>\<open>published_at\<close> that can be compared with
  the supplied bounds (both naive or both aware), the search returns, in order, exactly
  the found channels with \<open>min_date \<le> published_at \<le> max_date\<close>, a bound that is
  not supplied imposing nothing. With the range from 2020-01-01 to 2020-12-31 a channel
  published on 2021-01-01 is dropped and a channel published exactly on either bound
  is kept.
\<close>

theorem date_filter_inclusive:
  assumes "\<forall>c\<in>set (resolved (map (get_channel_stats api) response)).
             \<exists>p. parse_date (published_at c) = Inr p
               \<and> (\<forall>m. min_date = Some m \<longrightarrow> (tzinfo m = None) = (tzinfo p = None))
               \<and> (\<forall>m. max_date = Some m \<longrightarrow> (tzinfo m = None) = (tzinfo p = None))"
  shows "search_channels api response min_date max_date =
           Inr (filter (spec_retained min_date max_date)
                  (resolved (map (get_channel_stats api) response)))"
proof -
  have "search_loop min_date max_date (map (get_channel_stats api) response) [] =
      Inr ([] @ filter (spec_retained min_date max_date)
                  (resolved (map (get_channel_stats api) response)))"
    using assms by (rule search_loop_filter)
  then show ?thesis by (simp add: search_channels_def)
qed

theorem date_filter_inclusive_witness:
  "search_channels api_C response_C (Some min_2020) (Some max_2020) =
     Inr [stats_at ''lo'' ''2020-01-01T00:00:00Z'',
          stats_at ''hi'' ''2020-12-31T23:59:59.999999Z'']"
proof -
  let ?found = "[stats_at ''late'' ''2021-01-01T00:00:00Z'',
                 stats_at ''lo'' ''2020-01-01T00:00:00Z'',
                 stats_at ''early'' ''2019-12-31T23:59:59.999999Z'',
                 stats_at ''hi'' ''2020-12-31T23:59:59.999999Z'']"
  have res: "resolved (map (get_channel_stats api_C) response_C) = ?found"
    by code_simp
  have p1: "parse_date ''2021-01-01T00:00:00Z'' =
      Inr \<lparr>year = 2021, month = 1, day = 1, hour = 0, minute = 0, second = 0,
           microsecond = 0, tzinfo = None\<rparr>" by code_simp
  have p2: "parse_date ''2020-01-01T00:00:00Z'' =
      Inr \<lparr>year = 2020, month = 1, day = 1, hour = 0, minute = 0, second = 0,
           microsecond = 0, tzinfo = None\<rparr>" by code_simp
  have p3: "parse_date ''2019-12-31T23:59:59.999999Z'' =
      Inr \<lparr>year = 2019, month = 12, day = 31, hour = 23, minute = 59, second = 59,
           microsecond = 999999, tzinfo = None\<rparr>" by code_simp
  have p4: "parse_date ''2020-12-31T23:59:59.999999Z'' =
      Inr \<lparr>year = 2020, month = 12, day = 31, hour = 23, minute = 59, second = 59,
           microsecond = 999999, tzinfo = None\<rparr>" by code_simp
  have h: "\<forall>c\<in>set (resolved (map (get_channel_stats api_C) response_C)).
             \<exists>p. parse_date (published_at c) = Inr p
               \<and> (\<forall>m. Some min_2020 = Some m \<longrightarrow> (tzinfo m = None) = (tzinfo p = None))
               \<and> (\<forall>m. Some max_2020 = Some m \<longrightarrow> (tzinfo m = None) = (tzinfo p = None))"
    unfolding res by (simp add: stats_at_def p1 p2 p3 p4 min_2020_def max_2020_def)
  have "search_channels api_C response_C (Some min_2020) (Some max_2020) =
      Inr (filter (spec_retained (Some min_2020) (Some max_2020))
             (resolved (map (get_channel_stats api_C) response_C)))"
    using h by (rule date_filter_inclusive)
  also have "filter (spec_retained (Some min_2020) (Some max_2020))
             (resolved (map (get_channel_stats api_C) response_C)) =
      [stats_at ''lo'' ''2020-01-01T00:00:00Z'',
       stats_at ''hi'' ''2020-12-31T23:59:59.999999Z'']"
    by code_simp
  finally show ?thesis .
qed

text \<open>
  C8: the date filter is idempotent. When the loop over the looked-up channels returns
  a list, the loop run again with the same bounds over that list returns the same list.
\<close>

theorem date_filter_idempotent:
  assumes "search_loop min_date max_date infos [] = Inr out"
  shows "search_loop min_date max_date (map Some out) [] = Inr out"
proof -
  from search_loop_kept [OF assms]
  have "list_all (passes min_date max_date) out" by simp
  from search_loop_passes [OF this, of "[]"] show ?thesis by simp
qed

theorem date_filter_idempotent_witness:
  "search_loop (Some min_2020) (Some max_2020)
     (map Some [stats_at ''lo'' ''2020-01-01T00:00:00Z'',
                stats_at ''hi'' ''2020-12-31T23:59:59.999999Z'']) [] =
   Inr [stats_at ''lo'' ''2020-01-01T00:00:00Z'',
        stats_at ''hi'' ''2020-12-31T23:59:59.999999Z'']"
proof -
  have run: "search_loop (Some min_2020) (Some max_2020)
      (map (get_channel_stats api_C) response_C) [] =
    Inr [stats_at ''lo'' ''2020-01-01T00:00:00Z'',
         stats_at ''hi'' ''2020-12-31T23:59:59.999999Z'']"
    by code_simp
  show ?thesis using run by (rule date_filter_idempotent)
qed

section \<open>Failures of the parser\<close>

lemma new_datetime_error: "new_datetime y m d h mi s us tz = Inl e \<Longrightarrow> e = ValueError"
  by (simp add: new_datetime_def split: if_splits)

lemma strptime_error: "strptime s fmt = Inl e \<Longrightarrow> e = ValueError"
  by (auto simp: strptime_def split: option.splits dest: new_datetime_error)

lemma fromisoformat_error: "fromisoformat s = Inl e \<Longrightarrow> e = ValueError"
  by (auto simp: fromisoformat_def split: option.splits if_splits prod.splits
      dest: new_datetime_error)

lemma analyze_first_error:
  assumes "growth_record now c = Inl e"
  shows "analyze_channels_growth now (c # cs) days = Inl e"
proof -
  have "analyze_loop now 0 \<lparr>channels = c # cs, results = []\<rparr> = Inl e"
    using assms by (simp add: analyze_loop.simps [of now 0])
  then show ?thesis
    by (simp add: analyze_channels_growth_def analyze_frame_def)
qed

text \<open>
  C7: a timestamp that matches none of the three shapes (both \<^verbatim>\<open>strptime\<close> attempts and
  \<^verbatim>\<open>fromisoformat\<close> after the substitution raise) makes \<^verbatim>\<open>parse_date\<close> raise
  \<^verbatim>\<open>ValueError\<close>; it returns no value, so no default instant. The exception leaves the
  callers too: the elapsed days and the record of a channel with that timestamp, the
  analysis of a list that starts with it, and the search loop at such a channel all
  raise it.
\<close>

theorem parse_date_failure_propagates:
  assumes "strptime s ''%Y-%m-%dT%H:%M:%S.%fZ'' = Inl e1"
    and "strptime s ''%Y-%m-%dT%H:%M:%SZ'' = Inl e2"
    and "fromisoformat (replace (CHR ''Z'') ''+00:00'' s) = Inl e3"
  shows "parse_date s = Inl ValueError
       \<and> (\<forall>now c. published_at c = s \<longrightarrow>
             days_since now c = Inl ValueError \<and> growth_record now c = Inl ValueError)
       \<and> (\<forall>now c cs days. published_at c = s \<longrightarrow>
             analyze_channels_growth now (c # cs) days = Inl ValueError)
       \<and> (\<forall>min_date max_date c infos acc. published_at c = s \<longrightarrow>
             search_loop min_date max_date (Some c # infos) acc = Inl ValueError)"
proof -
  have e1: "strptime s ''%Y-%m-%dT%H:%M:%S.%fZ'' = Inl ValueError"
    using assms(1) strptime_error [OF assms(1)] by simp
  have e2: "strptime s ''%Y-%m-%dT%H:%M:%SZ'' = Inl ValueError"
    using assms(2) strptime_error [OF assms(2)] by simp
  have e3: "fromisoformat (replace (CHR ''Z'') ''+00:00'' s) = Inl ValueError"
    using assms(3) fromisoformat_error [OF assms(3)] by simp
  have parse: "parse_date s = Inl ValueError"
    by (simp add: parse_date_def e1 e2 e3)
  have days: "days_since now c = Inl ValueError" if "published_at c = s" for now c
    using that parse by (simp add: days_since_def)
  have rec: "growth_record now c = Inl ValueError" if "published_at c = s" for now c
    using days [OF that] by (rule growth_record_error)
  have ana: "analyze_channels_growth now (c # cs) days = Inl ValueError"
    if "published_at c = s" for now c cs days
    using rec [OF that] by (rule analyze_first_error)
  have srch: "search_loop min_date max_date (Some c # infos) acc = Inl ValueError"
    if "published_at c = s" for min_date max_date c infos acc
    using that parse by simp
  show ?thesis
    apply (intro conjI allI impI)
        apply (rule parse)
       apply (erule days)
      apply (erule rec)
     apply (erule ana)
    apply (erule srch)
    done
qed

theorem parse_date_failure_propagates_witness:
  "parse_date ''yesterday'' = Inl ValueError
   \<and> analyze_channels_growth clock [stats_at ''x'' ''yesterday'', channel_A] 30 = Inl ValueError
   \<and> search_loop (Some min_2020) None [None, Some (stats_at ''x'' ''yesterday'')] [] = Inl ValueError"
proof -
  have a: "strptime ''yesterday'' ''%Y-%m-%dT%H:%M:%S.%fZ'' = Inl ValueError" by code_simp
  have b: "strptime ''yesterday'' ''%Y-%m-%dT%H:%M:%SZ'' = Inl ValueError" by code_simp
  have c: "fromisoformat (replace (CHR ''Z'') ''+00:00'' ''yesterday'') = Inl ValueError"
    by code_simp
  note all = parse_date_failure_propagates [OF a b c]
  have pub: "published_at (stats_at ''x'' ''yesterday'') = ''yesterday''"
    by (simp add: stats_at_def)
  have 1: "parse_date ''yesterday'' = Inl ValueError"
    by (rule all [THEN conjunct1])
  have 2: "analyze_channels_growth clock [stats_at ''x'' ''yesterday'', channel_A] 30
      = Inl ValueError"
    by (rule all [THEN conjunct2, THEN conjunct2, THEN conjunct1, rule_format, OF pub])
  have "search_loop (Some min_2020) None [Some (stats_at ''x'' ''yesterday'')] []
      = Inl ValueError"
    by (rule all [THEN conjunct2, THEN conjunct2, THEN conjunct2, rule_format, OF pub])
  then have 3: "search_loop (Some min_2020) None [None, Some (stats_at ''x'' ''yesterday'')] []
      = Inl ValueError" by simp
  from 1 2 3 show ?thesis by (intro conjI)
qed

section \<open>Where the code departs from the specification\<close>

text \<open>
  C1: the specification asks that a channel with zero or negative elapsed days be
  handled by a policy (excluded, or its days floored at 1) and that no division by zero
  and no negative rate reach the ranking. The loop body has no such test: it divides by
  \<^verbatim>\<open>days_since_creation\<close> whatever its value. For a channel published on the day of
  the analysis the elapsed days are 0 and the analysis of a list that holds it raises
  \<^verbatim>\<open>ZeroDivisionError\<close>, so that no ranking is returned at all; for a channel published
  the day after the clock reading the elapsed days are \<open>-1\<close> and its record enters
  the ranking with negative rates.
\<close>

theorem analyze_same_day_raises:
  "days_since clock channel_today = Inr 0
   \<and> analyze_channels_growth clock [channel_A, channel_today] 30 = Inl ZeroDivisionError
   \<and> days_since clock channel_tomorrow = Inr (- 1)
   \<and> analyze_channels_growth clock [channel_tomorrow, channel_A] 30 =
       Inr [\<lparr>channel_name = ''Alpha'', g_channel_id = ''UC-A'', current_subs = 1000,
             current_views = 50000, g_published_at = ''2024-01-01T12:00:00Z'',
             days_since_creation = 100, daily_subs = 10, daily_views = 500,
             growth_rate = 1000\<rparr>,
            \<lparr>channel_name = ''Foxtrot'', g_channel_id = ''UC-F'', current_subs = 1000,
             current_views = 50000, g_published_at = ''2024-04-11T00:00:00Z'',
             days_since_creation = - 1, daily_subs = - 1000, daily_views = - 50000,
             growth_rate = - 100000\<rparr>]"
  by code_simp

text \<open>
  C2: the specification asks that the three shapes of one instant parse to equal
  values. The two \<^verbatim>\<open>strptime\<close> shapes give the same naive datetime. The third attempt
  gives an aware datetime (offset zero) whenever the text carries the UTC marker or an
  offset, as for midnight of 2020-01-01 written with a space for the \<^verbatim>\<open>T\<close> or with
  \<^verbatim>\<open>+00:00\<close> for the \<^verbatim>\<open>Z\<close>: it is not equal to the naive value of the other two
  shapes, and the callers cannot use it, since subtracting it from the naive clock
  reading and comparing it with a naive bound both raise \<^verbatim>\<open>TypeError\<close>.
\<close>

theorem parse_date_shapes_disagree:
  "parse_date ''2020-01-01T00:00:00.000000Z'' =
     Inr \<lparr>year = 2020, month = 1, day = 1, hour = 0, minute = 0, second = 0,
          microsecond = 0, tzinfo = None\<rparr>
   \<and> parse_date ''2020-01-01T00:00:00Z'' =
     Inr \<lparr>year = 2020, month = 1, day = 1, hour = 0, minute = 0, second = 0,
          microsecond = 0, tzinfo = None\<rparr>
   \<and> parse_date ''2020-01-01 00:00:00Z'' =
     Inr \<lparr>year = 2020, month = 1, day = 1, hour = 0, minute = 0, second = 0,
          microsecond = 0, tzinfo = Some 0\<rparr>
   \<and> parse_date ''2020-01-01T00:00:00+00:00'' =
     Inr \<lparr>year = 2020, month = 1, day = 1, hour = 0, minute = 0, second = 0,
          microsecond = 0, tzinfo = Some 0\<rparr>
   \<and> \<not> datetime_eq
         \<lparr>year = 2020, month = 1, day = 1, hour = 0, minute = 0, second = 0,
          microsecond = 0, tzinfo = None\<rparr>
         \<lparr>year = 2020, month = 1, day = 1, hour = 0, minute = 0, second = 0,
          microsecond = 0, tzinfo = Some 0\<rparr>
   \<and> days_since clock (stats_at ''c'' ''2020-01-01 00:00:00Z'') = Inl TypeError
   \<and> analyze_channels_growth clock [stats_at ''c'' ''2020-01-01 00:00:00Z''] 30 = Inl TypeError
   \<and> search_loop (Some min_2020) (Some max_2020)
         [Some (stats_at ''c'' ''2020-01-01 00:00:00Z'')] [] = Inl TypeError
   \<and> search_loop (Some min_2020) (Some max_2020)
         [Some (stats_at ''b'' ''2020-01-01T00:00:00Z'')] [] =
       Inr [stats_at ''b'' ''2020-01-01T00:00:00Z'']"
  by code_simp

end
